theory Spec2Isabelle
  imports Complex_Main "HOL-Library.Word"
begin

section \<open>JavaScript values\<close>

text \<open>
  A JavaScript string is a sequence of UTF-16 code units. String literals of the
  source are ASCII and are written with \<open>str\<close>.
\<close>

type_synonym code_unit = "16 word"
type_synonym js_string = "code_unit list"

definition str :: "string \<Rightarrow> js_string" where
  "str s = map of_char s"

text \<open>
  The numbers that \<open>JSON.parse\<close> can produce: a finite double (a rational; both
  zeros are \<open>Finite 0\<close>) or an infinity (from a literal that overflows). NaN cannot
  be written in JSON.
\<close>

datatype js_number = Finite rat | PosInfinity | NegInfinity

text \<open>
  The values the handlers see: what \<open>JSON.parse\<close> returns, and \<open>undefined\<close> for a
  property that is absent. The keys of a parsed object are distinct.
\<close>

datatype js_value =
    JUndefined
  | JNull
  | JBool bool
  | JNumber js_number
  | JString js_string
  | JArray "js_value list"
  | JObject "(js_string \<times> js_value) list"

datatype exn = SyntaxError | TypeError | ClientError | StoreError

text \<open>The truthiness of a value, as a condition tests it.\<close>

fun truthy :: "js_value \<Rightarrow> bool" where
  "truthy JUndefined = False"
| "truthy JNull = False"
| "truthy (JBool b) = b"
| "truthy (JNumber n) = (n \<noteq> Finite 0)"
| "truthy (JString s) = (s \<noteq> [])"
| "truthy (JArray _) = True"
| "truthy (JObject _) = True"

text \<open>\<open>!v\<close>\<close>

definition falsy :: "js_value \<Rightarrow> bool" where
  "falsy v = (\<not> truthy v)"

text \<open>\<open>typeof v === "string"\<close> and \<open>typeof v !== "string"\<close>.\<close>

fun is_string :: "js_value \<Rightarrow> bool" where
  "is_string (JString _) = True"
| "is_string _ = False"

definition not_string :: "js_value \<Rightarrow> bool" where
  "not_string v = (\<not> is_string v)"

text \<open>
  \<open>a === b\<close> between a value read from the store's reply and a value parsed from the
  request body. Arrays and objects are compared by identity, and the two values
  come from two different parses, so they are never the same object.
\<close>

fun strict_equals :: "js_value \<Rightarrow> js_value \<Rightarrow> bool" where
  "strict_equals JUndefined JUndefined = True"
| "strict_equals JNull JNull = True"
| "strict_equals (JBool a) (JBool b) = (a = b)"
| "strict_equals (JNumber a) (JNumber b) = (a = b)"
| "strict_equals (JString a) (JString b) = (a = b)"
| "strict_equals _ _ = False"

text \<open>
  \<open>const { k } = v\<close> for the keys \<open>code\<close> and \<open>machineId\<close>: destructuring
  \<open>null\<close> throws a TypeError; a string, number, boolean or array has no such
  property; an object yields its own property or \<open>undefined\<close>.
\<close>

fun get_property :: "js_value \<Rightarrow> js_string \<Rightarrow> exn + js_value" where
  "get_property JUndefined k = Inl TypeError"
| "get_property JNull k = Inl TypeError"
| "get_property (JObject kvs) k =
     Inr (case map_of kvs k of None \<Rightarrow> JUndefined | Some v \<Rightarrow> v)"
| "get_property _ k = Inr JUndefined"

text \<open>
  \<open>String.prototype.trim\<close> removes the WhiteSpace and LineTerminator code points
  of ECMAScript from both ends.
\<close>

definition is_white_space :: "code_unit \<Rightarrow> bool" where
  "is_white_space u \<longleftrightarrow>
     u = 0x0009 \<or> u = 0x000A \<or> u = 0x000B \<or> u = 0x000C \<or> u = 0x000D \<or>
     u = 0x0020 \<or> u = 0x00A0 \<or> u = 0x1680 \<or> (0x2000 \<le> u \<and> u \<le> 0x200A) \<or>
     u = 0x2028 \<or> u = 0x2029 \<or> u = 0x202F \<or> u = 0x205F \<or> u = 0x3000 \<or>
     u = 0xFEFF"

definition trim :: "js_string \<Rightarrow> js_string" where
  "trim s = rev (dropWhile is_white_space (rev (dropWhile is_white_space s)))"

text \<open>
  \<open>v.trim()\<close>: only a string has the method. On any other truthy value
  \<open>v.trim\<close> is \<open>undefined\<close> (or, for an object with a key \<open>trim\<close>, a JSON
  value), and calling it throws a TypeError; on \<open>null\<close> and \<open>undefined\<close> the
  property access itself throws.
\<close>

fun method_trim :: "js_value \<Rightarrow> exn + js_string" where
  "method_trim (JString s) = Inr (trim s)"
| "method_trim _ = Inl TypeError"

section \<open>The code store\<close>

text \<open>
  The table \<open>verification_codes\<close>, as the store's client shows it to the handlers.
  \<open>machine_id\<close> is the column value as a reply carries it (\<open>JNull\<close> when unset);
  the store is taken to return a written value as it was written.
\<close>

record row =
  row_id :: nat
  row_code :: js_string
  is_used :: bool
  machine_id :: js_value
  used_at :: "js_string option"

type_synonym table = "row list"

text \<open>
  The object passed to \<open>.update(...)\<close>. The machine-unbound handler sends no
  \<open>machine_id\<close> key.
\<close>

record patch =
  set_is_used :: bool
  set_used_at :: js_string
  set_machine_id :: "js_value option"

datatype db_call = Select js_string | Update nat patch

text \<open>The error object of a reply, with its \<open>code\<close> property.\<close>

datatype db_error = DbError "js_string option"

text \<open>
  A fault of the store or the network during one call: the promise rejects, or
  the reply carries an error object.
\<close>

datatype fault = Rejects | Reports db_error

text \<open>
  What one invocation finds around it: the process environment, whether
  \<open>createClient\<close> throws, the faults its two store calls meet, and the clock
  reading \<open>new Date().toISOString()\<close>.
\<close>

record world =
  SUPABASE_URL :: "js_string option"
  SUPABASE_ANON_KEY :: "js_string option"
  client_throws :: bool
  select_fault :: "fault option"
  update_fault :: "fault option"
  now :: js_string

definition PGRST116 :: db_error where
  "PGRST116 = DbError (Some (str ''PGRST116''))"

text \<open>
  \<open>.from("verification_codes").select("*").eq("code", c).single()\<close>:
  exactly one matching row is the data; no row, or more than one, is the error
  PGRST116 with no data.
\<close>

definition db_select :: "world \<Rightarrow> table \<Rightarrow> js_string \<Rightarrow> exn + (row option \<times> db_error option)" where
  "db_select w tb c =
     (case select_fault w of
        Some Rejects \<Rightarrow> Inl StoreError
      | Some (Reports e) \<Rightarrow> Inr (None, Some e)
      | None \<Rightarrow>
          (case filter (\<lambda>r. row_code r = c) tb of
             [r] \<Rightarrow> Inr (Some r, None)
           | _ \<Rightarrow> Inr (None, Some PGRST116)))"

definition apply_patch :: "nat \<Rightarrow> patch \<Rightarrow> row \<Rightarrow> row" where
  "apply_patch i p r =
     (if row_id r = i
      then r\<lparr>is_used := set_is_used p,
             used_at := Some (set_used_at p),
             machine_id := (case set_machine_id p of None \<Rightarrow> machine_id r | Some m \<Rightarrow> m)\<rparr>
      else r)"

text \<open>
  \<open>.from("verification_codes").update(p).eq("id", i)\<close>. A call that meets a fault
  leaves the table as it was.
\<close>

definition db_update :: "world \<Rightarrow> table \<Rightarrow> nat \<Rightarrow> patch \<Rightarrow> (exn + db_error option) \<times> table" where
  "db_update w tb i p =
     (case update_fault w of
        Some Rejects \<Rightarrow> (Inl StoreError, tb)
      | Some (Reports e) \<Rightarrow> (Inr (Some e), tb)
      | None \<Rightarrow> (Inr None, map (apply_patch i p) tb))"

section \<open>Requests and responses\<close>

text \<open>
  \<open>body_json\<close> is what \<open>JSON.parse(event.body)\<close> does when it is reached: it
  throws a SyntaxError on a body that is not JSON (an absent body included), and
  returns the parsed value otherwise (\<open>null\<close> for a body that is \<open>null\<close>).
\<close>

record event =
  httpMethod :: js_string
  body_json :: "exn + js_value"

datatype response_body = Empty | Json bool string

record response =
  statusCode :: nat
  headers :: "(string \<times> string) list"
  body :: response_body

definition cors_headers :: "(string \<times> string) list" where
  "cors_headers =
     [(''Access-Control-Allow-Origin'', ''*''),
      (''Access-Control-Allow-Headers'', ''Content-Type''),
      (''Access-Control-Allow-Methods'', ''POST, OPTIONS'')]"

text \<open>\<open>{ statusCode, headers, body: JSON.stringify({ success, message }) }\<close>\<close>

definition json_response :: "nat \<Rightarrow> bool \<Rightarrow> string \<Rightarrow> response" where
  "json_response st ok msg = \<lparr>statusCode = st, headers = cors_headers, body = Json ok msg\<rparr>"

text \<open>\<open>!process.env.X\<close> holds for an unset and for an empty variable.\<close>

fun env_missing :: "js_string option \<Rightarrow> bool" where
  "env_missing None = True"
| "env_missing (Some s) = (s = [])"

text \<open>
  The result of an invocation: the response (or the exception on its way to the
  \<open>catch\<close> block), the table afterwards, and the store calls made, in order.
\<close>

type_synonym 'a outcome = "'a \<times> table \<times> db_call list"

text \<open>The \<open>catch\<close> block of both handlers.\<close>

fun catch_all :: "(exn + response) outcome \<Rightarrow> response outcome" where
  "catch_all (Inl e, tb, cs) = (json_response 500 False ''An unexpected error occurred.'', tb, cs)"
| "catch_all (Inr r, tb, cs) = (r, tb, cs)"

section \<open>The machine-unbound handler (netlify/functions/verify.js)\<close>

definition unbound_try :: "world \<Rightarrow> event \<Rightarrow> table \<Rightarrow> (exn + response) outcome" where
  "unbound_try w ev tb =
     (if env_missing (SUPABASE_URL w) \<or> env_missing (SUPABASE_ANON_KEY w)
      then (Inr (json_response 500 False ''Server configuration error.''), tb, [])
      else if client_throws w then (Inl ClientError, tb, [])
      else
      (case body_json ev of
        Inl e \<Rightarrow> (Inl e, tb, [])
      | Inr parsed \<Rightarrow>
      (case get_property parsed (str ''code'') of
        Inl e \<Rightarrow> (Inl e, tb, [])
      | Inr code \<Rightarrow>
      (if falsy code \<or> not_string code \<or> method_trim code = Inr []
       then (Inr (json_response 400 False ''Verification code is required.''), tb, [])
       else
      (case method_trim code of
        Inl e \<Rightarrow> (Inl e, tb, [])
      | Inr c \<Rightarrow>
      (case db_select w tb c of
        Inl e \<Rightarrow> (Inl e, tb, [Select c])
      | Inr (data, selectError) \<Rightarrow>
      (if selectError \<noteq> None \<and> selectError \<noteq> Some PGRST116
       then (Inr (json_response 500 False ''Database query failed.''), tb, [Select c])
       else
      (case data of
        None \<Rightarrow>
          (Inr (json_response 404 False ''Invalid or already used verification code.''),
           tb, [Select c])
      | Some d \<Rightarrow>
      (if is_used d
       then (Inr (json_response 404 False ''Invalid or already used verification code.''),
             tb, [Select c])
       else
      (let p = \<lparr>set_is_used = True, set_used_at = now w, set_machine_id = None\<rparr> in
      (case db_update w tb (row_id d) p of
        (Inl e, tb') \<Rightarrow> (Inl e, tb', [Select c, Update (row_id d) p])
      | (Inr updateError, tb') \<Rightarrow>
      (if updateError \<noteq> None
       then (Inr (json_response 500 False ''Failed to update code status.''),
             tb', [Select c, Update (row_id d) p])
       else (Inr (json_response 200 True ''Verification successful. Access granted.''),
             tb', [Select c, Update (row_id d) p])))))))))))))"

definition handler_unbound :: "world \<Rightarrow> event \<Rightarrow> table \<Rightarrow> response outcome" where
  "handler_unbound w ev tb =
     (if httpMethod ev = str ''OPTIONS''
      then (\<lparr>statusCode = 204, headers = cors_headers, body = Empty\<rparr>, tb, [])
      else if httpMethod ev \<noteq> str ''POST''
      then (json_response 405 False ''Method Not Allowed'', tb, [])
      else catch_all (unbound_try w ev tb))"

section \<open>The machine-bound handler (unnamed/part_000)\<close>

text \<open>
  The handler awaits the store twice. \<open>bound_lookup\<close> is the handler up to the
  reply of the select; it ends with a response, or with the row read and the
  machine identifier, waiting to send the update. \<open>bound_activate\<close> is the rest.
\<close>

datatype progress = Finished response | FirstActivation row js_value

definition bound_lookup :: "world \<Rightarrow> event \<Rightarrow> table \<Rightarrow> (exn + progress) \<times> db_call list" where
  "bound_lookup w ev tb =
     (if env_missing (SUPABASE_URL w) \<or> env_missing (SUPABASE_ANON_KEY w)
      then (Inr (Finished (json_response 500 False ''Server configuration error.'')), [])
      else if client_throws w then (Inl ClientError, [])
      else
      (case body_json ev of
        Inl e \<Rightarrow> (Inl e, [])
      | Inr parsed \<Rightarrow>
      (case get_property parsed (str ''code'') of
        Inl e \<Rightarrow> (Inl e, [])
      | Inr code \<Rightarrow>
      (case get_property parsed (str ''machineId'') of
        Inl e \<Rightarrow> (Inl e, [])
      | Inr machineId \<Rightarrow>
      (if falsy code \<or> falsy machineId
       then (Inr (Finished (json_response 400 False
               ''Verification code and machine ID are required.'')), [])
       else
      (case method_trim code of
        Inl e \<Rightarrow> (Inl e, [])
      | Inr c \<Rightarrow>
      (case db_select w tb c of
        Inl e \<Rightarrow> (Inl e, [Select c])
      | Inr (codeData, selectError) \<Rightarrow>
      (if selectError \<noteq> None \<and> selectError \<noteq> Some PGRST116
       then (Inr (Finished (json_response 500 False ''Database query failed.'')), [Select c])
       else
      (case codeData of
        None \<Rightarrow>
          (Inr (Finished (json_response 404 False ''Invalid verification code.'')), [Select c])
      | Some d \<Rightarrow>
      (if is_used d
       then (if strict_equals (machine_id d) machineId
             then (Inr (Finished (json_response 200 True ''Verification successful.'')),
                   [Select c])
             else (Inr (Finished (json_response 403 False
                     ''This code has already been used on another computer.'')), [Select c]))
       else (Inr (FirstActivation d machineId), [Select c])))))))))))"

definition bound_activate :: "world \<Rightarrow> row \<Rightarrow> js_value \<Rightarrow> table \<Rightarrow> (exn + response) outcome" where
  "bound_activate w d machineId tb =
     (let p = \<lparr>set_is_used = True, set_used_at = now w, set_machine_id = Some machineId\<rparr> in
      (case db_update w tb (row_id d) p of
        (Inl e, tb') \<Rightarrow> (Inl e, tb', [Update (row_id d) p])
      | (Inr updateError, tb') \<Rightarrow>
      (if updateError \<noteq> None
       then (Inr (json_response 500 False ''Failed to activate code.''),
             tb', [Update (row_id d) p])
       else (Inr (json_response 200 True ''Application activated successfully.''),
             tb', [Update (row_id d) p]))))"

definition bound_try :: "world \<Rightarrow> event \<Rightarrow> table \<Rightarrow> (exn + response) outcome" where
  "bound_try w ev tb =
     (case bound_lookup w ev tb of
        (Inl e, cs) \<Rightarrow> (Inl e, tb, cs)
      | (Inr (Finished r), cs) \<Rightarrow> (Inr r, tb, cs)
      | (Inr (FirstActivation d machineId), cs) \<Rightarrow>
          (case bound_activate w d machineId tb of
             (r, tb', cs') \<Rightarrow> (r, tb', cs @ cs')))"

definition handler_bound :: "world \<Rightarrow> event \<Rightarrow> table \<Rightarrow> response outcome" where
  "handler_bound w ev tb =
     (if httpMethod ev = str ''OPTIONS''
      then (\<lparr>statusCode = 204, headers = cors_headers, body = Empty\<rparr>, tb, [])
      else if httpMethod ev \<noteq> str ''POST''
      then (json_response 405 False ''Method Not Allowed'', tb, [])
      else catch_all (bound_try w ev tb))"

section \<open>Invocations interleaved at the awaited store calls\<close>

text \<open>
  An invocation of the machine-bound handler runs without interruption up to each
  \<open>await\<close>. Between its select and its update, other invocations may run their
  own steps against the same table.
\<close>

datatype task = Start world event | Waiting world row js_value | Ended response

fun step :: "task \<Rightarrow> table \<Rightarrow> task \<times> table" where
  "step (Start w ev) tb =
     (if httpMethod ev = str ''OPTIONS''
      then (Ended \<lparr>statusCode = 204, headers = cors_headers, body = Empty\<rparr>, tb)
      else if httpMethod ev \<noteq> str ''POST''
      then (Ended (json_response 405 False ''Method Not Allowed''), tb)
      else
      (case bound_lookup w ev tb of
        (Inl e, cs) \<Rightarrow> (Ended (fst (catch_all (Inl e, tb, cs))), tb)
      | (Inr (Finished r), cs) \<Rightarrow> (Ended r, tb)
      | (Inr (FirstActivation d machineId), cs) \<Rightarrow> (Waiting w d machineId, tb)))"
| "step (Waiting w d machineId) tb =
     (case catch_all (bound_activate w d machineId tb) of
        (r, tb', cs) \<Rightarrow> (Ended r, tb'))"
| "step (Ended r) tb = (Ended r, tb)"

text \<open>
  Two invocations under a schedule: \<open>False\<close> lets the first one take its next
  step, \<open>True\<close> the second.
\<close>

fun run_schedule :: "bool list \<Rightarrow> task \<times> task \<Rightarrow> table \<Rightarrow> (task \<times> task) \<times> table" where
  "run_schedule [] ts tb = (ts, tb)"
| "run_schedule (False # sched) (t1, t2) tb =
     (case step t1 tb of (t1', tb') \<Rightarrow> run_schedule sched (t1', t2) tb')"
| "run_schedule (True # sched) (t1, t2) tb =
     (case step t2 tb of (t2', tb') \<Rightarrow> run_schedule sched (t1, t2') tb')"

section \<open>Sequences of invocations\<close>

text \<open>The table after a list of invocations, each on the table the one before left.\<close>

fun run_bound :: "(world \<times> event) list \<Rightarrow> table \<Rightarrow> table" where
  "run_bound [] tb = tb"
| "run_bound ((w, ev) # rest) tb = run_bound rest (fst (snd (handler_bound w ev tb)))"

fun run_unbound :: "(world \<times> event) list \<Rightarrow> table \<Rightarrow> table" where
  "run_unbound [] tb = tb"
| "run_unbound ((w, ev) # rest) tb = run_unbound rest (fst (snd (handler_unbound w ev tb)))"

text \<open>The \<open>machineId\<close> a request carries.\<close>

definition submitted_machine :: "event \<Rightarrow> js_value" where
  "submitted_machine ev =
     (case body_json ev of
        Inl e \<Rightarrow> JUndefined
      | Inr parsed \<Rightarrow>
          (case get_property parsed (str ''machineId'') of
             Inl e \<Rightarrow> JUndefined
           | Inr machineId \<Rightarrow> machineId))"

fun update_target :: "db_call \<Rightarrow> nat option" where
  "update_target (Update i p) = Some i"
| "update_target (Select c) = None"

text \<open>
  The activations of one invocation: the record it updated, with the machine of
  the request, when the invocation answered 200.
\<close>

definition activations_of :: "event \<Rightarrow> response outcome \<Rightarrow> (nat \<times> js_value) list" where
  "activations_of ev out =
     (case out of (r, tb', cs) \<Rightarrow>
        if statusCode r = 200
        then map (\<lambda>i. (i, submitted_machine ev)) (List.map_filter update_target cs)
        else [])"

text \<open>The activations of a list of invocations, oldest first.\<close>

fun activations_bound :: "(world \<times> event) list \<Rightarrow> table \<Rightarrow> (nat \<times> js_value) list" where
  "activations_bound [] tb = []"
| "activations_bound ((w, ev) # rest) tb =
     activations_of ev (handler_bound w ev tb)
       @ activations_bound rest (fst (snd (handler_bound w ev tb)))"

section \<open>Preconditions and example data\<close>

text \<open>The configuration is present and the client can be built.\<close>

definition configured :: "world \<Rightarrow> bool" where
  "configured w \<longleftrightarrow>
     env_missing (SUPABASE_URL w) = False \<and> env_missing (SUPABASE_ANON_KEY w) = False
       \<and> client_throws w = False"

text \<open>
  A POST request whose body parses to a value from which \<open>code\<close> and
  \<open>machineId\<close> are read as given (\<open>JUndefined\<close> for a key that is absent).
\<close>

definition posts :: "event \<Rightarrow> js_value \<Rightarrow> js_value \<Rightarrow> bool" where
  "posts ev code machineId \<longleftrightarrow>
     httpMethod ev = str ''POST'' \<and>
     (case body_json ev of
        Inl e \<Rightarrow> False
      | Inr parsed \<Rightarrow>
          get_property parsed (str ''code'') = Inr code \<and>
          get_property parsed (str ''machineId'') = Inr machineId)"

definition example_world :: world where
  "example_world =
     \<lparr>SUPABASE_URL = Some (str ''https://db.example''), SUPABASE_ANON_KEY = Some (str ''key''),
      client_throws = False, select_fault = None, update_fault = None,
      now = str ''2024-01-01T00:00:00.000Z''\<rparr>"

definition post_json :: "js_value \<Rightarrow> event" where
  "post_json v = \<lparr>httpMethod = str ''POST'', body_json = Inr v\<rparr>"

definition request :: "string \<Rightarrow> string \<Rightarrow> event" where
  "request c m =
     post_json (JObject [(str ''code'', JString (str c)), (str ''machineId'', JString (str m))])"

definition fresh_row :: row where
  "fresh_row = \<lparr>row_id = 7, row_code = str ''ABC-123'', is_used = False,
                 machine_id = JNull, used_at = None\<rparr>"

definition used_row :: row where
  "used_row = \<lparr>row_id = 8, row_code = str ''XYZ-789'', is_used = True,
                machine_id = JString (str ''M1''),
                used_at = Some (str ''2023-06-01T00:00:00.000Z'')\<rparr>"

text \<open>
  The record invariants, against the list \<open>h\<close> of the activations so far (record
  id and machine, oldest first): \<open>used_at\<close> is set exactly when \<open>is_used\<close> holds;
  a used record has a \<open>machine_id\<close> that is not null and is the machine of the
  first activation of its id; an unused record has no activation.
\<close>

definition row_consistent :: "(nat \<times> js_value) list \<Rightarrow> row \<Rightarrow> bool" where
  "row_consistent h r \<longleftrightarrow>
     (used_at r \<noteq> None) = is_used r \<and>
     (if is_used r
      then machine_id r \<noteq> JNull \<and> map_of h (row_id r) = Some (machine_id r)
      else map_of h (row_id r) = None)"

definition consistent :: "(nat \<times> js_value) list \<Rightarrow> table \<Rightarrow> bool" where
  "consistent h tb \<longleftrightarrow> (\<forall>r \<in> set tb. row_consistent h r)"

definition used_at_iff :: "table \<Rightarrow> bool" where
  "used_at_iff tb \<longleftrightarrow> (\<forall>r \<in> set tb. (used_at r \<noteq> None) = is_used r)"

definition two_machines :: "(world \<times> event) list" where
  "two_machines =
     [(example_world, request ''ABC-123'' ''M1''), (example_world, request ''ABC-123'' ''M2'')]"

section \<open>Facts about the store\<close>

lemma filter_unique_code:
  "distinct (map row_code tb) \<Longrightarrow> d \<in> set tb \<Longrightarrow>
   filter (\<lambda>r. row_code r = row_code d) tb = [d]"
proof (induction tb)
  case Nil
  then show ?case by simp
next
  case (Cons r tb)
  show ?case
  proof (cases "r = d")
    case True
    with Cons.prems have "\<forall>x \<in> set tb. row_code x \<noteq> row_code d"
      by (auto simp: image_iff)
    then have "filter (\<lambda>r. row_code r = row_code d) tb = []"
      by (simp add: filter_empty_conv)
    with True show ?thesis by simp
  next
    case False
    with Cons.prems have "d \<in> set tb" and "row_code r \<noteq> row_code d"
      by (auto simp: image_iff)
    with Cons show ?thesis by simp
  qed
qed

lemma db_select_found:
  assumes "select_fault w = None" and "distinct (map row_code tb)"
    and "d \<in> set tb" and "row_code d = c"
  shows "db_select w tb c = Inr (Some d, None)"
  using assms filter_unique_code [of tb d] by (auto simp: db_select_def)

lemma db_select_no_rows:
  assumes "select_fault w = None" and "c \<notin> row_code ` set tb"
  shows "db_select w tb c = Inr (None, Some PGRST116)"
proof -
  from assms(2) have "filter (\<lambda>r. row_code r = c) tb = []"
    by (auto simp: filter_empty_conv)
  with assms(1) show ?thesis by (simp add: db_select_def)
qed

lemma db_update_ok:
  "update_fault w = None \<Longrightarrow> db_update w tb i p = (Inr None, map (apply_patch i p) tb)"
  by (simp add: db_update_def)

section \<open>First activation\<close>

lemma bound_lookup_found:
  assumes "configured w" and "select_fault w = None"
    and "posts ev (JString c) m" and "c \<noteq> []" and "truthy m"
    and "distinct (map row_code tb)" and "d \<in> set tb" and "row_code d = trim c"
  shows "bound_lookup w ev tb =
     (if is_used d
      then (if strict_equals (machine_id d) m
            then (Inr (Finished (json_response 200 True ''Verification successful.'')),
                  [Select (trim c)])
            else (Inr (Finished (json_response 403 False
                    ''This code has already been used on another computer.'')),
                  [Select (trim c)]))
      else (Inr (FirstActivation d m), [Select (trim c)]))"
proof -
  from assms(3) obtain parsed where
    p: "body_json ev = Inr parsed"
       "get_property parsed (str ''code'') = Inr (JString c)"
       "get_property parsed (str ''machineId'') = Inr m"
    by (auto simp: posts_def split: sum.splits)
  have sel: "db_select w tb (trim c) = Inr (Some d, None)"
    using assms by (simp add: db_select_found)
  show ?thesis
    using assms(1,4,5) p sel
    by (simp add: bound_lookup_def configured_def falsy_def)
qed

text \<open>
  C1. In the machine-bound variant, a request whose trimmed code is the code of a
  record with \<open>is_used = false\<close> makes the handler send exactly one update, keyed by
  the record's id, that sets \<open>is_used\<close> to true, \<open>used_at\<close> to the current time
  and \<open>machine_id\<close> to the submitted machineId; the record is changed so, and the
  response is 200 with success.
\<close>

theorem first_activation_updates_once:
  assumes "configured w" and "select_fault w = None" and "update_fault w = None"
    and "posts ev (JString c) m" and "c \<noteq> []" and "truthy m"
    and "distinct (map row_code tb)" and "d \<in> set tb" and "row_code d = trim c"
    and "is_used d = False"
  shows "handler_bound w ev tb =
     (json_response 200 True ''Application activated successfully.'',
      map (apply_patch (row_id d)
        \<lparr>set_is_used = True, set_used_at = now w, set_machine_id = Some m\<rparr>) tb,
      [Select (trim c),
       Update (row_id d) \<lparr>set_is_used = True, set_used_at = now w, set_machine_id = Some m\<rparr>])
     \<and> d\<lparr>is_used := True, used_at := Some (now w), machine_id := m\<rparr>
         \<in> set (fst (snd (handler_bound w ev tb)))"
proof -
  let ?p = "\<lparr>set_is_used = True, set_used_at = now w, set_machine_id = Some m\<rparr>"
  have post: "httpMethod ev = str ''POST''"
    using assms(4) by (simp add: posts_def)
  have lookup: "bound_lookup w ev tb = (Inr (FirstActivation d m), [Select (trim c)])"
    using bound_lookup_found [OF assms(1,2,4,5,6,7,8,9)] assms(10) by simp
  have act: "bound_activate w d m tb =
      (Inr (json_response 200 True ''Application activated successfully.''),
       map (apply_patch (row_id d) ?p) tb, [Update (row_id d) ?p])"
    using assms(3) by (simp add: bound_activate_def db_update_ok Let_def)
  have h: "handler_bound w ev tb =
      (json_response 200 True ''Application activated successfully.'',
       map (apply_patch (row_id d) ?p) tb, [Select (trim c), Update (row_id d) ?p])"
    using post lookup act by (simp add: handler_bound_def bound_try_def str_def)
  have "apply_patch (row_id d) ?p d = d\<lparr>is_used := True, used_at := Some (now w), machine_id := m\<rparr>"
    by (simp add: apply_patch_def)
  with assms(8) have "d\<lparr>is_used := True, used_at := Some (now w), machine_id := m\<rparr>
      \<in> set (map (apply_patch (row_id d) ?p) tb)"
    by (metis imageI set_map)
  with h show ?thesis by simp
qed

theorem first_activation_updates_once_witness:
  "configured example_world \<and> select_fault example_world = None
   \<and> update_fault example_world = None
   \<and> posts (request '' ABC-123 '' ''M1'') (JString (str '' ABC-123 '')) (JString (str ''M1''))
   \<and> fresh_row \<in> set [fresh_row, used_row]
   \<and> row_code fresh_row = trim (str '' ABC-123 '')
   \<and> is_used fresh_row = False
   \<and> handler_bound example_world (request '' ABC-123 '' ''M1'') [fresh_row, used_row] =
       (json_response 200 True ''Application activated successfully.'',
        [fresh_row\<lparr>is_used := True, used_at := Some (now example_world),
                    machine_id := JString (str ''M1'')\<rparr>, used_row],
        [Select (str ''ABC-123''),
         Update 7 \<lparr>set_is_used = True, set_used_at = now example_world,
                   set_machine_id = Some (JString (str ''M1''))\<rparr>])"
proof -
  have a1: "configured example_world"
    by (simp add: configured_def example_world_def str_def)
  have a2: "select_fault example_world = None" and a3: "update_fault example_world = None"
    by (simp_all add: example_world_def)
  have a4: "posts (request '' ABC-123 '' ''M1'') (JString (str '' ABC-123 '')) (JString (str ''M1''))"
    by (simp add: posts_def request_def post_json_def str_def)
  have a5: "str '' ABC-123 '' \<noteq> []" and a6: "truthy (JString (str ''M1''))"
    by (simp_all add: str_def)
  have a7: "distinct (map row_code [fresh_row, used_row])"
    by (simp add: fresh_row_def used_row_def str_def)
  have a8: "fresh_row \<in> set [fresh_row, used_row]"
    by simp
  have a9: "row_code fresh_row = trim (str '' ABC-123 '')"
    by (simp add: fresh_row_def str_def trim_def is_white_space_def)
  have a10: "is_used fresh_row = False"
    by (simp add: fresh_row_def)
  have t: "trim (str '' ABC-123 '') = str ''ABC-123''"
    by (simp add: str_def trim_def is_white_space_def)
  from first_activation_updates_once [OF a1 a2 a3 a4 a5 a6 a7 a8 a9 a10]
  have "handler_bound example_world (request '' ABC-123 '' ''M1'') [fresh_row, used_row] =
       (json_response 200 True ''Application activated successfully.'',
        [fresh_row\<lparr>is_used := True, used_at := Some (now example_world),
                    machine_id := JString (str ''M1'')\<rparr>, used_row],
        [Select (str ''ABC-123''),
         Update 7 \<lparr>set_is_used = True, set_used_at = now example_world,
                   set_machine_id = Some (JString (str ''M1''))\<rparr>])"
    by (simp add: t apply_patch_def fresh_row_def used_row_def)
  with a1 a2 a3 a4 a8 a9 a10 show ?thesis by simp
qed

section \<open>Requests for a code that is already used\<close>

text \<open>
  C3. In the machine-bound variant, a request whose trimmed code is the code of a
  record with \<open>is_used = true\<close> and whose machineId is (\<open>===\<close>) the record's
  \<open>machine_id\<close> is answered 200 with success; the only store call is the select
  and the table is unchanged.
\<close>

theorem same_machine_reverifies:
  assumes "configured w" and "select_fault w = None"
    and "posts ev (JString c) m" and "c \<noteq> []" and "truthy m"
    and "distinct (map row_code tb)" and "d \<in> set tb" and "row_code d = trim c"
    and "is_used d" and "strict_equals (machine_id d) m"
  shows "handler_bound w ev tb =
     (json_response 200 True ''Verification successful.'', tb, [Select (trim c)])"
proof -
  have post: "httpMethod ev = str ''POST''"
    using assms(3) by (simp add: posts_def)
  have "bound_lookup w ev tb =
      (Inr (Finished (json_response 200 True ''Verification successful.'')), [Select (trim c)])"
    using bound_lookup_found [OF assms(1,2,3,4,5,6,7,8)] assms(9,10) by simp
  with post show ?thesis
    by (simp add: handler_bound_def bound_try_def str_def)
qed

theorem same_machine_reverifies_witness:
  "configured example_world \<and> select_fault example_world = None
   \<and> posts (request ''XYZ-789'' ''M1'') (JString (str ''XYZ-789'')) (JString (str ''M1''))
   \<and> used_row \<in> set [fresh_row, used_row] \<and> is_used used_row
   \<and> strict_equals (machine_id used_row) (JString (str ''M1''))
   \<and> handler_bound example_world (request ''XYZ-789'' ''M1'') [fresh_row, used_row] =
       (json_response 200 True ''Verification successful.'', [fresh_row, used_row],
        [Select (str ''XYZ-789'')])"
proof -
  have a1: "configured example_world"
    by (simp add: configured_def example_world_def str_def)
  have a2: "select_fault example_world = None"
    by (simp add: example_world_def)
  have a3: "posts (request ''XYZ-789'' ''M1'') (JString (str ''XYZ-789'')) (JString (str ''M1''))"
    by (simp add: posts_def request_def post_json_def str_def)
  have a4: "str ''XYZ-789'' \<noteq> []" and a5: "truthy (JString (str ''M1''))"
    by (simp_all add: str_def)
  have a6: "distinct (map row_code [fresh_row, used_row])"
    by (simp add: fresh_row_def used_row_def str_def)
  have a7: "used_row \<in> set [fresh_row, used_row]"
    by simp
  have t: "trim (str ''XYZ-789'') = str ''XYZ-789''"
    by (simp add: str_def trim_def is_white_space_def)
  have a8: "row_code used_row = trim (str ''XYZ-789'')"
    by (simp add: t) (simp add: used_row_def)
  have a9: "is_used used_row"
    by (simp add: used_row_def)
  have a10: "strict_equals (machine_id used_row) (JString (str ''M1''))"
    by (simp add: used_row_def)
  from same_machine_reverifies [OF a1 a2 a3 a4 a5 a6 a7 a8 a9 a10] t
  have "handler_bound example_world (request ''XYZ-789'' ''M1'') [fresh_row, used_row] =
       (json_response 200 True ''Verification successful.'', [fresh_row, used_row],
        [Select (str ''XYZ-789'')])"
    by simp
  with a1 a2 a3 a7 a9 a10 show ?thesis by simp
qed

lemma trim_nonempty: "trim c \<noteq> [] \<Longrightarrow> c \<noteq> []"
  by (auto simp: trim_def)

lemma unbound_try_select:
  assumes "configured w" and "posts ev (JString c) m" and "trim c \<noteq> []"
    and "db_select w tb (trim c) = Inr (data, None) \<or>
         db_select w tb (trim c) = Inr (data, Some PGRST116)"
    and "data = None \<or> (\<exists>d. data = Some d \<and> is_used d)"
  shows "unbound_try w ev tb =
     (Inr (json_response 404 False ''Invalid or already used verification code.''),
      tb, [Select (trim c)])"
proof -
  from assms(2) obtain parsed where
    p: "body_json ev = Inr parsed" "get_property parsed (str ''code'') = Inr (JString c)"
    by (auto simp: posts_def split: sum.splits)
  from assms(3) have c: "c \<noteq> []"
    by (rule trim_nonempty)
  show ?thesis
    using assms(1,3,4,5) p c
    by (auto simp: unbound_try_def configured_def falsy_def not_string_def)
qed

text \<open>
  C4. A request whose trimmed code is the code of a record with
  \<open>is_used = true\<close>: in the machine-bound variant, when the submitted machineId
  is not (\<open>===\<close>) the record's \<open>machine_id\<close>, the answer is 403 without success;
  in the machine-unbound variant the answer is 404 whatever machineId the request
  carries. Neither changes the table, and the only store call is the select.
\<close>

theorem used_code_rejected:
  assumes "configured w" and "select_fault w = None"
    and "posts ev (JString c) m" and "trim c \<noteq> []"
    and "distinct (map row_code tb)" and "d \<in> set tb" and "row_code d = trim c"
    and "is_used d"
  shows "(truthy m \<and> strict_equals (machine_id d) m = False \<longrightarrow>
          handler_bound w ev tb =
            (json_response 403 False ''This code has already been used on another computer.'',
             tb, [Select (trim c)]))
       \<and> handler_unbound w ev tb =
            (json_response 404 False ''Invalid or already used verification code.'',
             tb, [Select (trim c)])"
proof -
  have post: "httpMethod ev = str ''POST''"
    using assms(3) by (simp add: posts_def)
  have c: "c \<noteq> []"
    using assms(4) by (rule trim_nonempty)
  have sel: "db_select w tb (trim c) = Inr (Some d, None)"
    using assms(2,5,6,7) by (simp add: db_select_found)
  have bound: "handler_bound w ev tb =
      (json_response 403 False ''This code has already been used on another computer.'',
       tb, [Select (trim c)])"
    if "truthy m" and "strict_equals (machine_id d) m = False"
    using bound_lookup_found [OF assms(1,2,3) c that(1) assms(5,6,7)] assms(8) that(2) post
    by (simp add: handler_bound_def bound_try_def str_def)
  have "unbound_try w ev tb =
      (Inr (json_response 404 False ''Invalid or already used verification code.''),
       tb, [Select (trim c)])"
    using assms(1,3,4) sel assms(8) by (intro unbound_try_select [where data = "Some d"]) auto
  with post bound show ?thesis
    by (simp add: handler_unbound_def str_def)
qed

theorem used_code_rejected_witness:
  "configured example_world \<and> select_fault example_world = None
   \<and> posts (request ''XYZ-789'' ''M2'') (JString (str ''XYZ-789'')) (JString (str ''M2''))
   \<and> used_row \<in> set [fresh_row, used_row] \<and> is_used used_row
   \<and> strict_equals (machine_id used_row) (JString (str ''M2'')) = False
   \<and> handler_bound example_world (request ''XYZ-789'' ''M2'') [fresh_row, used_row] =
       (json_response 403 False ''This code has already been used on another computer.'',
        [fresh_row, used_row], [Select (str ''XYZ-789'')])
   \<and> handler_unbound example_world (request ''XYZ-789'' ''M2'') [fresh_row, used_row] =
       (json_response 404 False ''Invalid or already used verification code.'',
        [fresh_row, used_row], [Select (str ''XYZ-789'')])"
proof -
  have a1: "configured example_world"
    by (simp add: configured_def example_world_def str_def)
  have a2: "select_fault example_world = None"
    by (simp add: example_world_def)
  have a3: "posts (request ''XYZ-789'' ''M2'') (JString (str ''XYZ-789'')) (JString (str ''M2''))"
    by (simp add: posts_def request_def post_json_def str_def)
  have t: "trim (str ''XYZ-789'') = str ''XYZ-789''"
    by (simp add: str_def trim_def is_white_space_def)
  have a4: "trim (str ''XYZ-789'') \<noteq> []"
    by (simp add: t) (simp add: str_def)
  have a5: "distinct (map row_code [fresh_row, used_row])"
    by (simp add: fresh_row_def used_row_def str_def)
  have a6: "used_row \<in> set [fresh_row, used_row]"
    by simp
  have a7: "row_code used_row = trim (str ''XYZ-789'')"
    by (simp add: t) (simp add: used_row_def)
  have a8: "is_used used_row"
    by (simp add: used_row_def)
  have a9: "truthy (JString (str ''M2''))"
    and a10: "strict_equals (machine_id used_row) (JString (str ''M2'')) = False"
    by (simp_all add: used_row_def str_def)
  from used_code_rejected [OF a1 a2 a3 a4 a5 a6 a7 a8] a9 a10 t
  have "handler_bound example_world (request ''XYZ-789'' ''M2'') [fresh_row, used_row] =
       (json_response 403 False ''This code has already been used on another computer.'',
        [fresh_row, used_row], [Select (str ''XYZ-789'')])
   \<and> handler_unbound example_world (request ''XYZ-789'' ''M2'') [fresh_row, used_row] =
       (json_response 404 False ''Invalid or already used verification code.'',
        [fresh_row, used_row], [Select (str ''XYZ-789'')])"
    by simp
  with a1 a2 a3 a6 a8 a10 show ?thesis by simp
qed

section \<open>Unknown codes\<close>

text \<open>
  C5. A request whose trimmed code is the code of no record: the store's reply is
  the "no rows" error PGRST116, and both variants answer 404 without success
  (not 500), with the select as the only store call and the table unchanged.
\<close>

theorem unknown_code_not_found:
  assumes "configured w" and "select_fault w = None"
    and "posts ev (JString c) m" and "c \<noteq> []"
    and "trim c \<notin> row_code ` set tb"
  shows "db_select w tb (trim c) = Inr (None, Some PGRST116)
       \<and> (truthy m \<longrightarrow>
            handler_bound w ev tb =
              (json_response 404 False ''Invalid verification code.'', tb, [Select (trim c)]))
       \<and> (trim c \<noteq> [] \<longrightarrow>
            handler_unbound w ev tb =
              (json_response 404 False ''Invalid or already used verification code.'',
               tb, [Select (trim c)]))"
proof -
  from assms(3) obtain parsed where
    p: "httpMethod ev = str ''POST''" "body_json ev = Inr parsed"
       "get_property parsed (str ''code'') = Inr (JString c)"
       "get_property parsed (str ''machineId'') = Inr m"
    by (auto simp: posts_def split: sum.splits)
  have sel: "db_select w tb (trim c) = Inr (None, Some PGRST116)"
    using assms(2,5) by (rule db_select_no_rows)
  have "bound_lookup w ev tb =
      (Inr (Finished (json_response 404 False ''Invalid verification code.'')),
       [Select (trim c)])" if "truthy m"
    using assms(1,4) p sel that
    by (simp add: bound_lookup_def configured_def falsy_def)
  then have bound: "truthy m \<longrightarrow> handler_bound w ev tb =
      (json_response 404 False ''Invalid verification code.'', tb, [Select (trim c)])"
    using p(1) by (simp add: handler_bound_def bound_try_def str_def)
  have "unbound_try w ev tb =
      (Inr (json_response 404 False ''Invalid or already used verification code.''),
       tb, [Select (trim c)])" if "trim c \<noteq> []"
    using assms(1,3) that sel by (intro unbound_try_select [where data = None]) auto
  then have "trim c \<noteq> [] \<longrightarrow> handler_unbound w ev tb =
      (json_response 404 False ''Invalid or already used verification code.'',
       tb, [Select (trim c)])"
    using p(1) by (simp add: handler_unbound_def str_def)
  with sel bound show ?thesis by simp
qed

theorem unknown_code_not_found_witness:
  "configured example_world \<and> select_fault example_world = None
   \<and> posts (request ''NOPE'' ''M1'') (JString (str ''NOPE'')) (JString (str ''M1''))
   \<and> trim (str ''NOPE'') \<notin> row_code ` set [fresh_row, used_row]
   \<and> handler_bound example_world (request ''NOPE'' ''M1'') [fresh_row, used_row] =
       (json_response 404 False ''Invalid verification code.'', [fresh_row, used_row],
        [Select (str ''NOPE'')])
   \<and> handler_unbound example_world (request ''NOPE'' ''M1'') [fresh_row, used_row] =
       (json_response 404 False ''Invalid or already used verification code.'',
        [fresh_row, used_row], [Select (str ''NOPE'')])"
proof -
  have a1: "configured example_world"
    by (simp add: configured_def example_world_def str_def)
  have a2: "select_fault example_world = None"
    by (simp add: example_world_def)
  have a3: "posts (request ''NOPE'' ''M1'') (JString (str ''NOPE'')) (JString (str ''M1''))"
    by (simp add: posts_def request_def post_json_def str_def)
  have a4: "str ''NOPE'' \<noteq> []"
    by (simp add: str_def)
  have t: "trim (str ''NOPE'') = str ''NOPE''"
    by (simp add: str_def trim_def is_white_space_def)
  have a5: "trim (str ''NOPE'') \<notin> row_code ` set [fresh_row, used_row]"
    by (simp add: t) (simp add: fresh_row_def used_row_def str_def)
  have a6: "truthy (JString (str ''M1''))"
    by (simp add: str_def)
  from unknown_code_not_found [OF a1 a2 a3 a4 a5] a4 a6 t
  have "handler_bound example_world (request ''NOPE'' ''M1'') [fresh_row, used_row] =
       (json_response 404 False ''Invalid verification code.'', [fresh_row, used_row],
        [Select (str ''NOPE'')])
   \<and> handler_unbound example_world (request ''NOPE'' ''M1'') [fresh_row, used_row] =
       (json_response 404 False ''Invalid or already used verification code.'',
        [fresh_row, used_row], [Select (str ''NOPE'')])"
    by simp
  with a1 a2 a3 a5 show ?thesis by simp
qed

section \<open>Input validation\<close>

text \<open>
  C6. A POST request whose body has no \<open>code\<close>, or the empty string as
  \<open>code\<close>, or (machine-bound variant) no \<open>machineId\<close>, is answered 400 without
  success, and no store call is made.
\<close>

theorem missing_field_is_400:
  assumes "configured w" and "posts ev code machineId"
  shows "(code = JUndefined \<or> code = JString [] \<longrightarrow>
            handler_unbound w ev tb =
              (json_response 400 False ''Verification code is required.'', tb, []))
       \<and> (code = JUndefined \<or> code = JString [] \<or> machineId = JUndefined \<longrightarrow>
            handler_bound w ev tb =
              (json_response 400 False ''Verification code and machine ID are required.'',
               tb, []))"
proof -
  from assms(2) obtain parsed where
    p: "httpMethod ev = str ''POST''" "body_json ev = Inr parsed"
       "get_property parsed (str ''code'') = Inr code"
       "get_property parsed (str ''machineId'') = Inr machineId"
    by (auto simp: posts_def split: sum.splits)
  have u: "handler_unbound w ev tb =
      (json_response 400 False ''Verification code is required.'', tb, [])"
    if "falsy code"
    using assms(1) p that
    by (simp add: handler_unbound_def unbound_try_def configured_def str_def)
  have b: "handler_bound w ev tb =
      (json_response 400 False ''Verification code and machine ID are required.'', tb, [])"
    if "falsy code \<or> falsy machineId"
    using assms(1) p that
    by (auto simp: handler_bound_def bound_try_def bound_lookup_def configured_def str_def)
  show ?thesis
    using u b by (auto simp: falsy_def)
qed

theorem missing_field_is_400_witness:
  "configured example_world
   \<and> posts (post_json (JObject [(str ''machineId'', JString (str ''M1''))]))
       JUndefined (JString (str ''M1''))
   \<and> posts (post_json (JObject [(str ''code'', JString (str ''ABC-123''))]))
       (JString (str ''ABC-123'')) JUndefined
   \<and> handler_unbound example_world
        (post_json (JObject [(str ''machineId'', JString (str ''M1''))])) [fresh_row] =
       (json_response 400 False ''Verification code is required.'', [fresh_row], [])
   \<and> handler_bound example_world
        (post_json (JObject [(str ''machineId'', JString (str ''M1''))])) [fresh_row] =
       (json_response 400 False ''Verification code and machine ID are required.'',
        [fresh_row], [])
   \<and> handler_bound example_world
        (post_json (JObject [(str ''code'', JString (str ''ABC-123''))])) [fresh_row] =
       (json_response 400 False ''Verification code and machine ID are required.'',
        [fresh_row], [])"
proof -
  have a1: "configured example_world"
    by (simp add: configured_def example_world_def str_def)
  have a2: "posts (post_json (JObject [(str ''machineId'', JString (str ''M1''))]))
       JUndefined (JString (str ''M1''))"
    by (simp add: posts_def post_json_def str_def)
  have a3: "posts (post_json (JObject [(str ''code'', JString (str ''ABC-123''))]))
       (JString (str ''ABC-123'')) JUndefined"
    by (simp add: posts_def post_json_def str_def)
  from missing_field_is_400 [OF a1 a2, of "[fresh_row]"]
       missing_field_is_400 [OF a1 a3, of "[fresh_row]"]
  have "handler_unbound example_world
        (post_json (JObject [(str ''machineId'', JString (str ''M1''))])) [fresh_row] =
       (json_response 400 False ''Verification code is required.'', [fresh_row], [])
   \<and> handler_bound example_world
        (post_json (JObject [(str ''machineId'', JString (str ''M1''))])) [fresh_row] =
       (json_response 400 False ''Verification code and machine ID are required.'',
        [fresh_row], [])
   \<and> handler_bound example_world
        (post_json (JObject [(str ''code'', JString (str ''ABC-123''))])) [fresh_row] =
       (json_response 400 False ''Verification code and machine ID are required.'',
        [fresh_row], [])"
    by simp
  with a1 a2 a3 show ?thesis by simp
qed

section \<open>Methods\<close>

text \<open>
  C9. A request whose method is neither POST nor OPTIONS is answered 405 without
  success, whatever its body is (a body that is not JSON included), with no store
  call; a request with method OPTIONS is answered 204 with an empty body. This
  holds for both variants, in every world.
\<close>

theorem method_gate:
  "(m \<noteq> str ''POST'' \<and> m \<noteq> str ''OPTIONS'' \<longrightarrow>
      handler_bound w \<lparr>httpMethod = m, body_json = b\<rparr> tb =
        (json_response 405 False ''Method Not Allowed'', tb, [])
    \<and> handler_unbound w \<lparr>httpMethod = m, body_json = b\<rparr> tb =
        (json_response 405 False ''Method Not Allowed'', tb, []))
 \<and> handler_bound w \<lparr>httpMethod = str ''OPTIONS'', body_json = b\<rparr> tb =
      (\<lparr>statusCode = 204, headers = cors_headers, body = Empty\<rparr>, tb, [])
 \<and> handler_unbound w \<lparr>httpMethod = str ''OPTIONS'', body_json = b\<rparr> tb =
      (\<lparr>statusCode = 204, headers = cors_headers, body = Empty\<rparr>, tb, [])"
  by (simp add: handler_bound_def handler_unbound_def)

theorem method_gate_witness:
  "str ''GET'' \<noteq> str ''POST'' \<and> str ''GET'' \<noteq> str ''OPTIONS''
   \<and> handler_bound example_world \<lparr>httpMethod = str ''GET'', body_json = Inl SyntaxError\<rparr>
        [fresh_row] = (json_response 405 False ''Method Not Allowed'', [fresh_row], [])
   \<and> handler_unbound example_world \<lparr>httpMethod = str ''GET'', body_json = Inl SyntaxError\<rparr>
        [fresh_row] = (json_response 405 False ''Method Not Allowed'', [fresh_row], [])
   \<and> handler_bound example_world
        \<lparr>httpMethod = str ''OPTIONS'', body_json = Inl SyntaxError\<rparr> [fresh_row] =
      (\<lparr>statusCode = 204, headers = cors_headers, body = Empty\<rparr>, [fresh_row], [])"
proof -
  have a: "str ''GET'' \<noteq> str ''POST''" "str ''GET'' \<noteq> str ''OPTIONS''"
    by (simp_all add: str_def)
  from method_gate [of "str ''GET''" example_world "Inl SyntaxError" "[fresh_row]"] a
  show ?thesis by simp
qed

section \<open>Exceptions\<close>

lemma catch_all_calls: "snd (snd (catch_all out)) = snd (snd out)"
  by (cases out rule: catch_all.cases) simp_all

lemma bound_try_calls: "\<exists>cs. snd (snd (bound_try w ev tb)) = snd (bound_lookup w ev tb) @ cs"
  by (auto simp: bound_try_def split: prod.splits sum.splits progress.splits)

lemma bound_lookup_calls:
  assumes "configured w" and "body_json ev = Inr parsed"
    and "get_property parsed (str ''code'') = Inr (JString c)"
    and "get_property parsed (str ''machineId'') = Inr m"
    and "c \<noteq> []" and "truthy m"
  shows "snd (bound_lookup w ev tb) = [Select (trim c)]"
  using assms
  by (simp add: bound_lookup_def configured_def falsy_def
      split: sum.splits prod.splits option.splits)

text \<open>
  C10. In the machine-bound variant, a \<open>code\<close> that is truthy and not a string
  (a JSON number, say) passes the validation, \<open>code.trim()\<close> throws a TypeError,
  and the answer is 500, not 400, with no store call. A \<open>code\<close> and a
  \<open>machineId\<close> that are non-empty strings pass the validation also when they
  are whitespace only, and the select is sent with the trimmed code.
\<close>

theorem bound_validation_gaps:
  assumes "configured w" and "posts ev code machineId"
    and "truthy code" and "truthy machineId"
  shows "(is_string code = False \<longrightarrow>
            bound_try w ev tb = (Inl TypeError, tb, []) \<and>
            handler_bound w ev tb =
              (json_response 500 False ''An unexpected error occurred.'', tb, []))
       \<and> (code = JString c \<longrightarrow>
            (\<exists>cs. snd (snd (handler_bound w ev tb)) = Select (trim c) # cs))"
proof -
  from assms(2) obtain parsed where
    p: "httpMethod ev = str ''POST''" "body_json ev = Inr parsed"
       "get_property parsed (str ''code'') = Inr code"
       "get_property parsed (str ''machineId'') = Inr machineId"
    by (auto simp: posts_def split: sum.splits)
  have thrown: "bound_try w ev tb = (Inl TypeError, tb, [])" if "is_string code = False"
  proof -
    from that have "method_trim code = Inl TypeError"
      by (cases code) simp_all
    then have "bound_lookup w ev tb = (Inl TypeError, [])"
      using assms(1,3,4) p by (simp add: bound_lookup_def configured_def falsy_def)
    then show ?thesis by (simp add: bound_try_def)
  qed
  have reached: "\<exists>cs. snd (snd (handler_bound w ev tb)) = Select (trim c) # cs"
    if "code = JString c"
  proof -
    from that assms(3) have "c \<noteq> []" by simp
    with that assms(1,4) p have "snd (bound_lookup w ev tb) = [Select (trim c)]"
      by (intro bound_lookup_calls) simp_all
    with bound_try_calls [of w ev tb] p(1) show ?thesis
      by (auto simp: handler_bound_def catch_all_calls str_def)
  qed
  from thrown reached p(1) show ?thesis
    by (auto simp: handler_bound_def str_def)
qed

theorem bound_validation_gaps_witness:
  "configured example_world
   \<and> posts (post_json (JObject [(str ''code'', JNumber (Finite 12345)),
                                 (str ''machineId'', JString (str ''M1''))]))
       (JNumber (Finite 12345)) (JString (str ''M1''))
   \<and> truthy (JNumber (Finite 12345)) \<and> is_string (JNumber (Finite 12345)) = False
   \<and> handler_bound example_world
        (post_json (JObject [(str ''code'', JNumber (Finite 12345)),
                             (str ''machineId'', JString (str ''M1''))])) [fresh_row] =
       (json_response 500 False ''An unexpected error occurred.'', [fresh_row], [])
   \<and> posts (request ''   '' '' '') (JString (str ''   '')) (JString (str '' ''))
   \<and> truthy (JString (str ''   '')) \<and> truthy (JString (str '' ''))
   \<and> (\<exists>cs. snd (snd (handler_bound example_world (request ''   '' '' '') [fresh_row])) =
          Select [] # cs)"
proof -
  have a1: "configured example_world"
    by (simp add: configured_def example_world_def str_def)
  have a2: "posts (post_json (JObject [(str ''code'', JNumber (Finite 12345)),
                                 (str ''machineId'', JString (str ''M1''))]))
       (JNumber (Finite 12345)) (JString (str ''M1''))"
    by (simp add: posts_def post_json_def str_def)
  have a3: "truthy (JNumber (Finite 12345))" and a4: "truthy (JString (str ''M1''))"
    by (simp_all add: str_def)
  have b2: "posts (request ''   '' '' '') (JString (str ''   '')) (JString (str '' ''))"
    by (simp add: posts_def request_def post_json_def str_def)
  have b3: "truthy (JString (str ''   ''))" and b4: "truthy (JString (str '' ''))"
    by (simp_all add: str_def)
  have t: "trim (str ''   '') = []"
    by (simp add: str_def trim_def is_white_space_def)
  from bound_validation_gaps [OF a1 a2 a3 a4, where tb = "[fresh_row]"]
  have n: "handler_bound example_world
        (post_json (JObject [(str ''code'', JNumber (Finite 12345)),
                             (str ''machineId'', JString (str ''M1''))])) [fresh_row] =
       (json_response 500 False ''An unexpected error occurred.'', [fresh_row], [])"
    by simp
  from bound_validation_gaps [OF a1 b2 b3 b4, where c = "str ''   ''" and tb = "[fresh_row]"] t
  have "\<exists>cs. snd (snd (handler_bound example_world (request ''   '' '' '') [fresh_row])) =
          Select [] # cs"
    by simp
  with a1 a2 a3 n b2 b3 b4 show ?thesis by simp
qed

lemma bound_lookup_json:
  "bound_lookup w ev tb = (Inr (Finished r), cs) \<Longrightarrow> \<exists>st ok msg. r = json_response st ok msg"
  by (auto simp: bound_lookup_def split: if_splits sum.splits prod.splits option.splits)

lemma bound_activate_json:
  "bound_activate w d m tb = (Inr r, tb', cs) \<Longrightarrow> \<exists>st ok msg. r = json_response st ok msg"
  by (auto simp: bound_activate_def Let_def split: if_splits sum.splits prod.splits)

lemma bound_try_json:
  "bound_try w ev tb = (Inr r, tb', cs) \<Longrightarrow> \<exists>st ok msg. r = json_response st ok msg"
  by (auto simp: bound_try_def split: prod.splits sum.splits progress.splits
      dest: bound_lookup_json bound_activate_json)

lemma unbound_try_json:
  "unbound_try w ev tb = (Inr r, tb', cs) \<Longrightarrow> \<exists>st ok msg. r = json_response st ok msg"
  by (auto simp: unbound_try_def Let_def split: if_splits sum.splits prod.splits option.splits)

lemma catch_all_json:
  assumes "\<And>r tb' cs. out = (Inr r, tb', cs) \<Longrightarrow> \<exists>st ok msg. r = json_response st ok msg"
  shows "\<exists>ok msg. body (fst (catch_all out)) = Json ok msg"
proof (cases out rule: catch_all.cases)
  case (1 e tb cs)
  then show ?thesis by (auto simp: json_response_def)
next
  case (2 r tb cs)
  with assms obtain st ok msg where "r = json_response st ok msg" by blast
  with 2 show ?thesis by (simp add: json_response_def)
qed

text \<open>
  C7, as the handlers have it. A POST request whose body is not JSON (an absent
  body included) or is \<open>null\<close> is answered 500 without success, with the generic
  message of the \<open>catch\<close> block (or the configuration message when the
  configuration is missing), and no store call is made. Every exception raised
  inside the \<open>try\<close> block becomes the response 500 with
  \<open>{success: false, message: "An unexpected error occurred."}\<close>, and every
  response to a POST request has a JSON body with a success flag and a message.
\<close>

theorem body_faults_are_500:
  assumes "httpMethod ev = str ''POST''"
  shows "(body_json ev = Inl e \<or> body_json ev = Inr JNull \<longrightarrow>
            handler_bound w ev tb =
              (json_response 500 False
                 (if env_missing (SUPABASE_URL w) \<or> env_missing (SUPABASE_ANON_KEY w)
                  then ''Server configuration error.''
                  else ''An unexpected error occurred.''), tb, []) \<and>
            handler_unbound w ev tb =
              (json_response 500 False
                 (if env_missing (SUPABASE_URL w) \<or> env_missing (SUPABASE_ANON_KEY w)
                  then ''Server configuration error.''
                  else ''An unexpected error occurred.''), tb, []))
       \<and> (bound_try w ev tb = (Inl x, tb', cs) \<longrightarrow>
            handler_bound w ev tb =
              (json_response 500 False ''An unexpected error occurred.'', tb', cs))
       \<and> (unbound_try w ev tb = (Inl x, tb', cs) \<longrightarrow>
            handler_unbound w ev tb =
              (json_response 500 False ''An unexpected error occurred.'', tb', cs))
       \<and> (\<exists>ok msg. body (fst (handler_bound w ev tb)) = Json ok msg)
       \<and> (\<exists>ok msg. body (fst (handler_unbound w ev tb)) = Json ok msg)"
proof -
  have m: "str ''POST'' \<noteq> str ''OPTIONS''"
    by (simp add: str_def)
  have hb: "handler_bound w ev tb = catch_all (bound_try w ev tb)"
    and hu: "handler_unbound w ev tb = catch_all (unbound_try w ev tb)"
    using assms m by (simp_all add: handler_bound_def handler_unbound_def)
  have 1: "catch_all (bound_try w ev tb) =
      (json_response 500 False
         (if env_missing (SUPABASE_URL w) \<or> env_missing (SUPABASE_ANON_KEY w)
          then ''Server configuration error.'' else ''An unexpected error occurred.''), tb, [])"
    if "body_json ev = Inl e \<or> body_json ev = Inr JNull"
    using that by (auto simp: bound_try_def bound_lookup_def)
  have 2: "catch_all (unbound_try w ev tb) =
      (json_response 500 False
         (if env_missing (SUPABASE_URL w) \<or> env_missing (SUPABASE_ANON_KEY w)
          then ''Server configuration error.'' else ''An unexpected error occurred.''), tb, [])"
    if "body_json ev = Inl e \<or> body_json ev = Inr JNull"
    using that by (auto simp: unbound_try_def)
  have 3: "\<exists>ok msg. body (fst (catch_all (bound_try w ev tb))) = Json ok msg"
    by (rule catch_all_json) (rule bound_try_json)
  have 4: "\<exists>ok msg. body (fst (catch_all (unbound_try w ev tb))) = Json ok msg"
    by (rule catch_all_json) (rule unbound_try_json)
  show ?thesis
    unfolding hb hu using 1 2 3 4 by auto
qed

theorem body_faults_are_500_witness:
  "httpMethod \<lparr>httpMethod = str ''POST'', body_json = Inl SyntaxError\<rparr> = str ''POST''
   \<and> handler_bound example_world \<lparr>httpMethod = str ''POST'', body_json = Inl SyntaxError\<rparr>
        [fresh_row] =
       (json_response 500 False ''An unexpected error occurred.'', [fresh_row], [])
   \<and> handler_unbound example_world \<lparr>httpMethod = str ''POST'', body_json = Inl SyntaxError\<rparr>
        [fresh_row] =
       (json_response 500 False ''An unexpected error occurred.'', [fresh_row], [])
   \<and> bound_try example_world (post_json JNull) [fresh_row] = (Inl TypeError, [fresh_row], [])
   \<and> handler_bound example_world (post_json JNull) [fresh_row] =
       (json_response 500 False ''An unexpected error occurred.'', [fresh_row], [])"
proof -
  have a: "httpMethod \<lparr>httpMethod = str ''POST'', body_json = Inl SyntaxError\<rparr> = str ''POST''"
    by simp
  have b: "httpMethod (post_json JNull) = str ''POST''"
    by (simp add: post_json_def)
  have c: "bound_try example_world (post_json JNull) [fresh_row] =
      (Inl TypeError, [fresh_row], [])"
    by (simp add: bound_try_def bound_lookup_def example_world_def post_json_def str_def)
  have e: "env_missing (SUPABASE_URL example_world) = False"
    "env_missing (SUPABASE_ANON_KEY example_world) = False"
    by (simp_all add: example_world_def str_def)
  from body_faults_are_500 [OF a, where e = SyntaxError and w = example_world and tb = "[fresh_row]"] e
  have 1: "handler_bound example_world \<lparr>httpMethod = str ''POST'', body_json = Inl SyntaxError\<rparr>
        [fresh_row] =
       (json_response 500 False ''An unexpected error occurred.'', [fresh_row], [])
   \<and> handler_unbound example_world \<lparr>httpMethod = str ''POST'', body_json = Inl SyntaxError\<rparr>
        [fresh_row] =
       (json_response 500 False ''An unexpected error occurred.'', [fresh_row], [])"
    by simp
  from body_faults_are_500 [OF b, where w = example_world and tb = "[fresh_row]"
      and x = TypeError and tb' = "[fresh_row]" and cs = "[]"] c
  have 2: "handler_bound example_world (post_json JNull) [fresh_row] =
       (json_response 500 False ''An unexpected error occurred.'', [fresh_row], [])"
    by simp
  from a 1 c 2 show ?thesis by simp
qed

text \<open>
  The claim C7 asks for a 4xx status here. With the configuration present, a POST
  request whose body is not JSON is answered 500 by both handlers.
\<close>

theorem malformed_body_not_4xx:
  "handler_bound example_world \<lparr>httpMethod = str ''POST'', body_json = Inl SyntaxError\<rparr>
     [fresh_row] =
     (json_response 500 False ''An unexpected error occurred.'', [fresh_row], [])
   \<and> handler_unbound example_world \<lparr>httpMethod = str ''POST'', body_json = Inl SyntaxError\<rparr>
     [fresh_row] =
     (json_response 500 False ''An unexpected error occurred.'', [fresh_row], [])
   \<and> statusCode (json_response 500 False ''An unexpected error occurred.'') = 500"
  by (simp add: handler_bound_def handler_unbound_def bound_try_def bound_lookup_def
      unbound_try_def example_world_def json_response_def str_def)

section \<open>Two first activations of one code at the same time\<close>

lemma catch_all_table: "fst (snd (catch_all (x, tb, cs))) = tb"
  by (cases x) simp_all

text \<open>
  An invocation that takes its two steps with nothing in between is the handler.
\<close>

lemma step_twice_is_handler:
  "step (fst (step (Start w ev) tb)) (snd (step (Start w ev) tb)) =
     (Ended (fst (handler_bound w ev tb)), fst (snd (handler_bound w ev tb)))"
proof -
  obtain res cs where l: "bound_lookup w ev tb = (res, cs)"
    by (cases "bound_lookup w ev tb")
  show ?thesis
  proof (cases res)
    case (Inl e)
    with l show ?thesis
      by (simp add: handler_bound_def bound_try_def)
  next
    case (Inr pr)
    show ?thesis
    proof (cases pr)
      case (Finished r)
      with Inr l show ?thesis
        by (simp add: handler_bound_def bound_try_def)
    next
      case (FirstActivation d m)
      obtain x tb' cs' where a: "bound_activate w d m tb = (x, tb', cs')"
        by (cases "bound_activate w d m tb")
      from FirstActivation Inr l a show ?thesis
        by (cases x) (simp_all add: handler_bound_def bound_try_def)
    qed
  qed
qed

text \<open>
  C8 asks that of two concurrent first activations of one never-used code exactly
  one binds its machine. In the machine-bound handler the update is not
  conditional on \<open>is_used = false\<close>: when both invocations have read the record
  before either has written it, both are answered 200 "Application activated
  successfully.", and the record keeps the machine of the later update.
\<close>

theorem concurrent_first_activations_both_succeed:
  "run_schedule [False, True, False, True]
     (Start example_world (request ''ABC-123'' ''M1''),
      Start example_world (request ''ABC-123'' ''M2'')) [fresh_row] =
   ((Ended (json_response 200 True ''Application activated successfully.''),
     Ended (json_response 200 True ''Application activated successfully.'')),
    [fresh_row\<lparr>is_used := True, used_at := Some (now example_world),
                machine_id := JString (str ''M2'')\<rparr>])"
  by (simp add: bound_lookup_def bound_activate_def example_world_def request_def post_json_def
      fresh_row_def str_def trim_def is_white_space_def db_select_def db_update_def
      apply_patch_def falsy_def Let_def)

section \<open>The record invariants over sequences of invocations\<close>

lemma map_filter_app:
  "List.map_filter f (xs @ ys) = List.map_filter f xs @ List.map_filter f ys"
  by (simp add: List.map_filter_def)

lemma db_select_data:
  assumes "db_select w tb c = Inr (Some d, e)"
  shows "d \<in> set tb"
proof -
  from assms have "filter (\<lambda>r. row_code r = c) tb = [d]"
    by (auto simp: db_select_def split: option.splits fault.splits list.splits)
  then have "d \<in> set (filter (\<lambda>r. row_code r = c) tb)" by simp
  then show ?thesis by simp
qed

lemma bound_lookup_first:
  assumes "bound_lookup w ev tb = (Inr (FirstActivation d m), cs)"
  shows "d \<in> set tb \<and> is_used d = False \<and> truthy m \<and> m = submitted_machine ev
         \<and> List.map_filter update_target cs = []"
  using assms
  by (auto simp: bound_lookup_def submitted_machine_def falsy_def List.map_filter_simps
      split: if_splits sum.splits prod.splits option.splits dest: db_select_data)

lemma bound_lookup_no_update:
  "List.map_filter update_target (snd (bound_lookup w ev tb)) = []"
  by (auto simp: bound_lookup_def List.map_filter_simps
      split: if_splits sum.splits prod.splits option.splits)

text \<open>
  One invocation of the machine-bound handler leaves the table alone and activates
  nothing, or it patches the rows with the id of an unused row and activates that
  id for the machine of the request.
\<close>

lemma handler_bound_outcome:
  "(fst (snd (handler_bound w ev tb)) = tb \<and> activations_of ev (handler_bound w ev tb) = [])
   \<or> (\<exists>d. d \<in> set tb \<and> is_used d = False \<and> truthy (submitted_machine ev) \<and>
        fst (snd (handler_bound w ev tb)) =
          map (apply_patch (row_id d)
            \<lparr>set_is_used = True, set_used_at = now w,
             set_machine_id = Some (submitted_machine ev)\<rparr>) tb \<and>
        activations_of ev (handler_bound w ev tb) = [(row_id d, submitted_machine ev)])"
proof (cases "httpMethod ev = str ''POST''")
  case False
  then show ?thesis
    by (simp add: handler_bound_def activations_of_def json_response_def List.map_filter_simps)
next
  case True
  have m: "str ''POST'' \<noteq> str ''OPTIONS''" by (simp add: str_def)
  with True have hb: "handler_bound w ev tb = catch_all (bound_try w ev tb)"
    by (simp add: handler_bound_def)
  obtain res cs where l: "bound_lookup w ev tb = (res, cs)" by (cases "bound_lookup w ev tb")
  from bound_lookup_no_update [of w ev tb] l have nu: "List.map_filter update_target cs = []"
    by simp
  show ?thesis
  proof (cases res)
    case (Inl e)
    with l nu show ?thesis
      by (simp add: hb bound_try_def activations_of_def)
  next
    case (Inr pr)
    show ?thesis
    proof (cases pr)
      case (Finished r)
      with Inr l nu show ?thesis
        by (simp add: hb bound_try_def activations_of_def)
    next
      case (FirstActivation d mm)
      with Inr l have f: "bound_lookup w ev tb = (Inr (FirstActivation d mm), cs)" by simp
      note b = bound_lookup_first [OF f]
      show ?thesis
      proof (cases "update_fault w")
        case None
        have "fst (snd (handler_bound w ev tb)) =
            map (apply_patch (row_id d)
              \<lparr>set_is_used = True, set_used_at = now w,
               set_machine_id = Some (submitted_machine ev)\<rparr>) tb"
          and "activations_of ev (handler_bound w ev tb) = [(row_id d, submitted_machine ev)]"
          using None f b
          by (simp_all add: hb bound_try_def bound_activate_def db_update_def Let_def
              activations_of_def json_response_def List.map_filter_simps map_filter_app)
        moreover from b have "d \<in> set tb" "is_used d = False" "truthy (submitted_machine ev)"
          by auto
        ultimately show ?thesis by blast
      next
        case (Some flt)
        with f b show ?thesis
          by (cases flt) (simp_all add: hb bound_try_def bound_activate_def db_update_def Let_def
              activations_of_def json_response_def List.map_filter_simps)
      qed
    qed
  qed
qed

lemma consistent_activation:
  assumes "consistent h tb" and "d \<in> set tb" and "is_used d = False" and "truthy m"
  shows "consistent (h @ [(row_id d, m)])
     (map (apply_patch (row_id d)
        \<lparr>set_is_used = True, set_used_at = t, set_machine_id = Some m\<rparr>) tb)"
proof -
  let ?p = "\<lparr>set_is_used = True, set_used_at = t, set_machine_id = Some m\<rparr>"
  from assms(4) have nn: "m \<noteq> JNull" by auto
  from assms(1,2,3) have fresh: "map_of h (row_id d) = None"
    by (auto simp: consistent_def row_consistent_def)
  have key: "row_consistent (h @ [(row_id d, m)]) (apply_patch (row_id d) ?p r)"
    if r: "r \<in> set tb" for r
  proof (cases "row_id r = row_id d")
    case True
    with fresh nn show ?thesis
      by (simp add: row_consistent_def apply_patch_def map_add_def)
  next
    case False
    from assms(1) r have "row_consistent h r"
      by (simp add: consistent_def)
    with False show ?thesis
      by (cases "is_used r") (simp_all add: row_consistent_def apply_patch_def map_add_def)
  qed
  then have "\<forall>r' \<in> set (map (apply_patch (row_id d) ?p) tb).
      row_consistent (h @ [(row_id d, m)]) r'"
    by auto
  then show ?thesis
    unfolding consistent_def by blast
qed

lemma handler_bound_consistent:
  assumes "consistent h tb"
  shows "consistent (h @ activations_of ev (handler_bound w ev tb))
           (fst (snd (handler_bound w ev tb)))"
  using handler_bound_outcome [of w ev tb] assms
  by (auto simp: consistent_activation)

lemma run_bound_consistent:
  "consistent h tb \<Longrightarrow> consistent (h @ activations_bound reqs tb) (run_bound reqs tb)"
proof (induction reqs arbitrary: h tb)
  case Nil
  then show ?case by simp
next
  case (Cons a reqs)
  obtain w ev where a: "a = (w, ev)" by (cases a)
  from Cons.prems have "consistent (h @ activations_of ev (handler_bound w ev tb))
           (fst (snd (handler_bound w ev tb)))"
    by (rule handler_bound_consistent)
  from Cons.IH [OF this] a show ?case by simp
qed

text \<open>
  One invocation of the machine-unbound handler leaves the table alone, or patches
  the rows of one id without a \<open>machine_id\<close>.
\<close>

lemma handler_unbound_outcome:
  "fst (snd (handler_unbound w ev tb)) = tb
   \<or> (\<exists>i. fst (snd (handler_unbound w ev tb)) =
          map (apply_patch i \<lparr>set_is_used = True, set_used_at = now w, set_machine_id = None\<rparr>) tb)"
proof (cases "httpMethod ev = str ''POST''")
  case False
  then show ?thesis by (simp add: handler_unbound_def)
next
  case True
  have m: "str ''POST'' \<noteq> str ''OPTIONS''" by (simp add: str_def)
  with True have hu: "handler_unbound w ev tb = catch_all (unbound_try w ev tb)"
    by (simp add: handler_unbound_def)
  have "fst (snd (unbound_try w ev tb)) = tb
   \<or> (\<exists>i. fst (snd (unbound_try w ev tb)) =
          map (apply_patch i \<lparr>set_is_used = True, set_used_at = now w, set_machine_id = None\<rparr>) tb)"
    by (auto simp: unbound_try_def db_update_def Let_def
        split: sum.splits prod.splits option.splits fault.splits)
  then show ?thesis
    unfolding hu by (cases "unbound_try w ev tb") (simp add: catch_all_table)
qed

lemma unbound_patch_keeps:
  "used_at_iff tb \<Longrightarrow>
   used_at_iff (map (apply_patch i \<lparr>set_is_used = True, set_used_at = t, set_machine_id = None\<rparr>) tb)
   \<and> map machine_id (map (apply_patch i \<lparr>set_is_used = True, set_used_at = t, set_machine_id = None\<rparr>) tb)
       = map machine_id tb"
  by (auto simp: used_at_iff_def apply_patch_def)

lemma run_unbound_keeps:
  "used_at_iff tb \<Longrightarrow>
   used_at_iff (run_unbound reqs tb) \<and> map machine_id (run_unbound reqs tb) = map machine_id tb"
proof (induction reqs arbitrary: tb)
  case Nil
  then show ?case by simp
next
  case (Cons a reqs)
  obtain w ev where a: "a = (w, ev)" by (cases a)
  from handler_unbound_outcome [of w ev tb] Cons.prems
  have "used_at_iff (fst (snd (handler_unbound w ev tb)))
      \<and> map machine_id (fst (snd (handler_unbound w ev tb))) = map machine_id tb"
    using unbound_patch_keeps by auto
  with Cons.IH [of "fst (snd (handler_unbound w ev tb))"] a show ?case by simp
qed

text \<open>
  C2, as the handlers have it. Start from a table whose records are all unused,
  with \<open>used_at\<close> null. After any sequence of invocations of the machine-bound
  handler, every record has \<open>used_at\<close> set exactly when \<open>is_used\<close> is true, and a
  used record has a \<open>machine_id\<close> that is not null and is the machineId of the
  first request of the sequence that activated it. After any sequence of
  invocations of the machine-unbound handler, every record has \<open>used_at\<close> set
  exactly when \<open>is_used\<close> is true, and every \<open>machine_id\<close> is as it was: that
  handler never writes it.
\<close>

theorem invariants_after_invocations:
  assumes "\<forall>r \<in> set tb. is_used r = False \<and> used_at r = None"
  shows "(\<forall>r \<in> set (run_bound reqs tb).
            (used_at r \<noteq> None) = is_used r \<and>
            (is_used r \<longrightarrow>
               machine_id r \<noteq> JNull \<and>
               map_of (activations_bound reqs tb) (row_id r) = Some (machine_id r)))
       \<and> (\<forall>r \<in> set (run_unbound reqs tb). (used_at r \<noteq> None) = is_used r)
       \<and> map machine_id (run_unbound reqs tb) = map machine_id tb"
proof -
  from assms have "consistent [] tb"
    by (simp add: consistent_def row_consistent_def)
  from run_bound_consistent [OF this, of reqs]
  have b: "consistent (activations_bound reqs tb) (run_bound reqs tb)"
    by simp
  from assms have "used_at_iff tb"
    by (simp add: used_at_iff_def)
  from run_unbound_keeps [OF this, of reqs] b show ?thesis
    by (auto simp: consistent_def row_consistent_def used_at_iff_def split: if_splits)
qed

lemma run_two_machines:
  "run_bound two_machines [fresh_row] =
     [fresh_row\<lparr>is_used := True, used_at := Some (now example_world),
                 machine_id := JString (str ''M1'')\<rparr>]"
  by (simp add: two_machines_def handler_bound_def bound_try_def bound_lookup_def
      bound_activate_def example_world_def request_def post_json_def
      fresh_row_def str_def trim_def is_white_space_def db_select_def db_update_def
      apply_patch_def falsy_def Let_def)

theorem invariants_after_invocations_witness:
  "is_used fresh_row = False \<and> used_at fresh_row = None
   \<and> run_bound two_machines [fresh_row] =
       [fresh_row\<lparr>is_used := True, used_at := Some (now example_world),
                   machine_id := JString (str ''M1'')\<rparr>]
   \<and> map_of (activations_bound two_machines [fresh_row]) 7 = Some (JString (str ''M1''))
   \<and> map machine_id (run_unbound two_machines [fresh_row]) = [JNull]"
proof -
  have a: "is_used fresh_row = False" "used_at fresh_row = None"
    by (simp_all add: fresh_row_def)
  then have h: "\<forall>r \<in> set [fresh_row]. is_used r = False \<and> used_at r = None"
    by simp
  from invariants_after_invocations [OF h, of two_machines]
  have "map_of (activations_bound two_machines [fresh_row]) 7 = Some (JString (str ''M1''))"
    and "map machine_id (run_unbound two_machines [fresh_row]) = [JNull]"
    by (simp_all add: run_two_machines) (simp_all add: fresh_row_def)
  with a run_two_machines show ?thesis by simp
qed

text \<open>
  The claim C2 asks the machine invariant of both variants. The machine-unbound
  handler marks a record used and leaves its \<open>machine_id\<close> null.
\<close>

theorem unbound_use_leaves_machine_null:
  "run_unbound [(example_world, request ''ABC-123'' ''M1'')] [fresh_row] =
     [\<lparr>row_id = 7, row_code = str ''ABC-123'', is_used = True, machine_id = JNull,
       used_at = Some (str ''2024-01-01T00:00:00.000Z'')\<rparr>]"
  by (simp add: handler_unbound_def unbound_try_def example_world_def request_def post_json_def
      fresh_row_def str_def trim_def is_white_space_def db_select_def db_update_def
      apply_patch_def falsy_def not_string_def Let_def)

end
